theory Spec2Isabelle
  imports Main
begin

section \<open>Audio data loading (src/engine/audio/audio.main.ts)\<close>

text \<open>
  \<open>LoadStatus\<close> is declared in \<open>resource/resource.common\<close>; \<open>updateAudioDatas\<close> uses the
  five members below.
\<close>

datatype LoadStatus = Uninitialized | Loading | Loaded | Disposed | Error

text \<open>
  The payload a load produces (\<open>AudioBuffer | HTMLAudioElement | MediaStream\<close>) is an opaque
  handle. \<open>loadAudioData\<close> may also resolve with \<open>undefined\<close> (an unknown media stream), so
  the resolved value and the \<open>data\<close> field are optional.
\<close>

type_synonym AudioPayload = nat

record MainAudioData =
  loadStatus :: LoadStatus
  data :: "AudioPayload option"
  abortController :: bool  \<comment> \<open>whether an \<open>AbortController\<close> has been stored on the resource\<close>

text \<open>
  How the promise returned by \<open>loadAudioData\<close> settles: fulfilled with a value, or rejected
  with a reason whose \<open>name\<close> property is given (\<open>None\<close> when the reason has no \<open>name\<close>,
  as the event passed to \<open>audioEl.onerror\<close>).
\<close>

datatype LoadOutcome = Resolved "AudioPayload option" | Rejected "string option"

text \<open>
  The \<open>.then\<close> callback of \<open>updateAudioDatas\<close>. It throws an \<open>Error\<close> when the resource is
  already \<open>Loaded\<close>; \<open>Inl\<close> carries the \<open>name\<close> of what was thrown.
\<close>

definition onLoadFulfilled :: "AudioPayload option \<Rightarrow> MainAudioData \<Rightarrow> string option + MainAudioData" where
  "onLoadFulfilled d audioData =
     (if loadStatus audioData = Loaded then Inl (Some ''Error'')
      else if loadStatus audioData \<noteq> Disposed
        then Inr (audioData\<lparr>data := d, loadStatus := Loaded\<rparr>)
        else Inr audioData)"

text \<open>The \<open>.catch\<close> callback: an \<open>AbortError\<close> is ignored, anything else marks the resource.\<close>

definition onLoadRejected :: "string option \<Rightarrow> MainAudioData \<Rightarrow> MainAudioData" where
  "onLoadRejected name audioData =
     (if name = Some ''AbortError'' then audioData
      else audioData\<lparr>loadStatus := Error\<rparr>)"

text \<open>
  The chain \<open>loadAudioData(...).then(...).catch(...)\<close>: the \<open>.catch\<close> handler also receives
  what the \<open>.then\<close> callback throws.
\<close>

definition loadSettled :: "LoadOutcome \<Rightarrow> MainAudioData \<Rightarrow> MainAudioData" where
  "loadSettled outcome audioData =
     (case outcome of
        Resolved d \<Rightarrow>
          (case onLoadFulfilled d audioData of
             Inl thrown \<Rightarrow> onLoadRejected thrown audioData
           | Inr audioData' \<Rightarrow> audioData')
      | Rejected name \<Rightarrow> onLoadRejected name audioData)"

text \<open>
  The local audio resources together with the loads in flight: \<open>pendingLoads\<close> lists, in the
  order they were started, the indices of the resources whose \<open>loadAudioData\<close> promise has
  not settled yet.
\<close>

record AudioResources =
  audioDatas :: "MainAudioData list"
  pendingLoads :: "nat list"

text \<open>One iteration of the \<open>for\<close> loop of \<open>updateAudioDatas\<close>, at index \<open>i\<close>.\<close>

definition updateAudioData :: "AudioResources \<Rightarrow> nat \<Rightarrow> AudioResources" where
  "updateAudioData s i =
     (let audioData = audioDatas s ! i in
      if loadStatus audioData = Uninitialized
      then s\<lparr>audioDatas := (audioDatas s)[i := audioData\<lparr>abortController := True, loadStatus := Loading\<rparr>],
             pendingLoads := pendingLoads s @ [i]\<rparr>
      else s)"

definition updateAudioDatas :: "AudioResources \<Rightarrow> AudioResources" where
  "updateAudioDatas s = foldl updateAudioData s [0..<length (audioDatas s)]"

text \<open>The load of resource \<open>i\<close> settles: its callbacks run on the resource.\<close>

definition settleLoad :: "nat \<Rightarrow> LoadOutcome \<Rightarrow> AudioResources \<Rightarrow> AudioResources" where
  "settleLoad i outcome s =
     (if i \<in> set (pendingLoads s) \<and> i < length (audioDatas s)
      then s\<lparr>audioDatas := (audioDatas s)[i := loadSettled outcome (audioDatas s ! i)],
             pendingLoads := remove1 i (pendingLoads s)\<rparr>
      else s)"

definition audioExample :: AudioResources where
  "audioExample =
     \<lparr>audioDatas = [\<lparr>loadStatus = Loading, data = None, abortController = True\<rparr>,
                    \<lparr>loadStatus = Uninitialized, data = None, abortController = False\<rparr>],
      pendingLoads = [0]\<rparr>"


section \<open>Renderer (src/engine/renderer/renderer.render.ts)\<close>

text \<open>
  Objects of the scene graph (\<open>Object3D\<close> of three.js, and its subclasses \<open>Scene\<close> and
  \<open>Camera\<close>) are references; two references are the same object when they are equal.
\<close>

type_synonym Object3D = nat

record Renderable =
  object :: "Object3D option"
  helper :: "Object3D option"
  eid :: nat
  resourceId :: nat

text \<open>
  Modelled from the spec: the entry \<open>resourceManager.store\<close> holds for a resource id
  (\<open>ResourceInfo\<close> and \<open>ResourceState\<close> are declared in \<open>resources/ResourceManager\<close>,
  outside the files covered here). A resource is \<open>Loading\<close>, or \<open>Loaded\<close> with its
  payload attached, or in \<open>Error\<close>; the renderer reads \<open>state\<close>, \<open>resource\<close> and
  \<open>promise\<close> of the entry.
\<close>

datatype ResourceInfo = ResourceLoading | ResourceLoaded Object3D | ResourceError

text \<open>
  The messages of the queue: \<open>AddRenderable resourceId eid\<close>, \<open>RemoveRenderable eid\<close>,
  \<open>SetActiveCamera eid\<close>, \<open>SetActiveScene eid resourceId\<close>.
\<close>

datatype RenderableMessages =
    AddRenderable nat nat
  | RemoveRenderable nat
  | SetActiveCamera nat
  | SetActiveScene nat nat

text \<open>
  The callbacks the handlers attach to \<open>resourceInfo.promise\<close>: the \<open>.finally\<close> callback of
  \<open>onAddRenderable\<close>, which captures its message, and the \<open>.then\<close> callback of
  \<open>onSetActiveScene\<close>.
\<close>

datatype PromiseCallback = RequeueAddRenderable nat nat | SetSceneWhenLoaded

datatype ConsoleEntry =
    Warn_UnknownResourceId nat nat
  | Warn_CouldNotBeLoaded nat nat
  | Error_SceneNotFound nat nat

text \<open>
  What a frame does after the queue: \<open>swapReadBuffer\<close>, then
  \<open>renderer.render(scene, camera)\<close>, recorded with the scene object, its children at that
  moment and the camera.
\<close>

datatype FrameEffect = SwapReadBuffer | Render Object3D "Object3D list" "Object3D option"

datatype Exception = TypeError

text \<open>
  The part of \<open>RendererModuleState\<close> the message handlers work on. \<open>children\<close> holds the
  \<open>children\<close> array of every object; \<open>promiseCallbacks\<close> lists the callbacks attached to
  the promises of the resources, each with the id of its resource, in the order of
  attachment; \<open>console\<close> and \<open>frameEffects\<close> record the output.
\<close>

record RendererModuleState =
  scene :: Object3D
  children :: "Object3D \<Rightarrow> Object3D list"
  camera :: "Object3D option"
  store :: "nat \<rightharpoonup> ResourceInfo"
  renderableMessageQueue :: "RenderableMessages list"
  renderables :: "Renderable list"
  objectToEntityMap :: "Object3D \<rightharpoonup> nat"
  renderableIndices :: "nat \<rightharpoonup> nat"
  promiseCallbacks :: "(nat \<times> PromiseCallback) list"
  console :: "ConsoleEntry list"
  frameEffects :: "FrameEffect list"

text \<open>A call either returns or throws; the state is what the call has made of it so far.\<close>

datatype Completion = Returned RendererModuleState | Threw Exception RendererModuleState

fun completionState :: "Completion \<Rightarrow> RendererModuleState" where
  "completionState (Returned s) = s"
| "completionState (Threw _ s) = s"

text \<open>
  \<open>Array.prototype.splice(start, deleteCount, ...items)\<close> for a start that is not negative:
  the removed elements and the array afterwards. A start beyond the end removes nothing and
  appends the items.
\<close>

definition splice :: "nat \<Rightarrow> nat \<Rightarrow> 'a list \<Rightarrow> 'a list \<Rightarrow> 'a list \<times> 'a list" where
  "splice start deleteCount items xs =
     (take deleteCount (drop start xs), take start xs @ items @ drop (start + deleteCount) xs)"

text \<open>
  \<open>Object3D.remove\<close> and \<open>Object3D.add\<close> of three.js: \<open>remove\<close> takes the object out of
  the children of \<open>this\<close>; \<open>add\<close> appends it to the children of \<open>this\<close>, after taking it
  away from the parent it had (an object has at most one parent). \<open>add\<close> refuses to make an
  object a child of itself: it reports an error and changes nothing.
\<close>

definition Object3D_remove ::
  "Object3D \<Rightarrow> Object3D \<Rightarrow> (Object3D \<Rightarrow> Object3D list) \<Rightarrow> (Object3D \<Rightarrow> Object3D list)" where
  "Object3D_remove this obj ch = ch(this := remove1 obj (ch this))"

definition Object3D_add ::
  "Object3D \<Rightarrow> Object3D \<Rightarrow> (Object3D \<Rightarrow> Object3D list) \<Rightarrow> (Object3D \<Rightarrow> Object3D list)" where
  "Object3D_add this obj ch =
     (if obj = this then ch
      else (\<lambda>p. remove1 obj (ch p))(this := remove1 obj (ch this) @ [obj]))"

definition onRenderableMessage :: "RenderableMessages \<Rightarrow> RendererModuleState \<Rightarrow> RendererModuleState" where
  "onRenderableMessage message s = s\<lparr>renderableMessageQueue := renderableMessageQueue s @ [message]\<rparr>"

text \<open>
  \<open>if (removed.length > 0 && removed[0].object) scene.remove(removed[0].object)\<close>, as both
  branches of \<open>onAddRenderable\<close> have it.
\<close>

definition sceneRemoveRemoved :: "Renderable list \<Rightarrow> RendererModuleState \<Rightarrow> RendererModuleState" where
  "sceneRemoveRemoved removed s =
     (case removed of
        [] \<Rightarrow> s
      | r # _ \<Rightarrow>
          (case object r of
             None \<Rightarrow> s
           | Some obj \<Rightarrow> s\<lparr>children := Object3D_remove (scene s) obj (children s)\<rparr>))"

text \<open>\<open>onAddRenderable\<close> for the message \<open>AddRenderable rid e\<close>.\<close>

definition onAddRenderable :: "nat \<Rightarrow> nat \<Rightarrow> RendererModuleState \<Rightarrow> RendererModuleState" where
  "onAddRenderable rid e s =
     (case store s rid of
        None \<Rightarrow> s\<lparr>console := console s @ [Warn_UnknownResourceId rid e]\<rparr>
      | Some resourceInfo \<Rightarrow>
          (case resourceInfo of
             ResourceLoaded obj \<Rightarrow>
               (let entry = \<lparr>object = Some obj, helper = None, eid = e, resourceId = rid\<rparr>;
                    s1 = (case renderableIndices s e of
                            Some renderableIndex \<Rightarrow>
                              (let (removed, rs) = splice renderableIndex 1 [entry] (renderables s)
                               in sceneRemoveRemoved removed (s\<lparr>renderables := rs\<rparr>))
                          | None \<Rightarrow>
                              s\<lparr>renderableIndices := (renderableIndices s)(e \<mapsto> length (renderables s)),
                                renderables := renderables s @ [entry],
                                objectToEntityMap := (objectToEntityMap s)(obj \<mapsto> e)\<rparr>)
                in s1\<lparr>children := Object3D_add (scene s1) obj (children s1)\<rparr>)
           | ResourceLoading \<Rightarrow>
               (let entry = \<lparr>object = None, helper = None, eid = e, resourceId = rid\<rparr>;
                    s1 = (case renderableIndices s e of
                            Some renderableIndex \<Rightarrow>
                              (let (removed, rs) = splice renderableIndex 1 [entry] (renderables s)
                               in sceneRemoveRemoved removed (s\<lparr>renderables := rs\<rparr>))
                          | None \<Rightarrow>
                              s\<lparr>renderableIndices := (renderableIndices s)(e \<mapsto> length (renderables s)),
                                renderables := renderables s @ [entry]\<rparr>)
                in s1\<lparr>promiseCallbacks := promiseCallbacks s1 @ [(rid, RequeueAddRenderable rid e)]\<rparr>)
           | ResourceError \<Rightarrow> s\<lparr>console := console s @ [Warn_CouldNotBeLoaded rid e]\<rparr>))"

text \<open>
  The callback \<open>onAddRenderable\<close> passes to \<open>resourceInfo.promise.finally\<close>, for the message
  \<open>AddRenderable rid e\<close>. Reading \<open>renderables[index].resourceId\<close> throws a \<open>TypeError\<close>
  when \<open>renderables\<close> has no element at \<open>index\<close>.
\<close>

definition requeueAddRenderable :: "nat \<Rightarrow> nat \<Rightarrow> RendererModuleState \<Rightarrow> Completion" where
  "requeueAddRenderable rid e s =
     (case renderableIndices s e of
        None \<Rightarrow> Returned s
      | Some index \<Rightarrow>
          if index < length (renderables s)
          then (if resourceId (renderables s ! index) \<noteq> rid then Returned s
                else Returned (s\<lparr>renderableMessageQueue := renderableMessageQueue s @ [AddRenderable rid e]\<rparr>))
          else Threw TypeError s)"

definition onRemoveRenderable :: "nat \<Rightarrow> RendererModuleState \<Rightarrow> RendererModuleState" where
  "onRemoveRenderable e s =
     (case renderableIndices s e of
        None \<Rightarrow> s
      | Some index \<Rightarrow>
          (let (removed, rs) = splice index 1 [] (renderables s);
               s1 = s\<lparr>renderables := rs, renderableIndices := (renderableIndices s)(e := None)\<rparr>
           in case removed of
                [] \<Rightarrow> s1
              | r # _ \<Rightarrow>
                  (let s2 = (case object r of
                               None \<Rightarrow> s1
                             | Some obj \<Rightarrow>
                                 s1\<lparr>children := Object3D_remove (scene s1) obj (children s1),
                                    objectToEntityMap := (objectToEntityMap s1)(obj := None)\<rparr>)
                   in case helper r of
                        None \<Rightarrow> s2
                      | Some h \<Rightarrow>
                          s2\<lparr>children := Object3D_remove (scene s2) h (children s2),
                             objectToEntityMap := (objectToEntityMap s2)(h := None)\<rparr>)))"

text \<open>
  \<open>for (const child of rendererState.scene.children) newScene.add(child)\<close> of \<open>setScene\<close>:
  the iteration reads the array of the old scene by index while \<open>add\<close> takes the children
  out of it.
\<close>

function setSceneLoop ::
  "nat \<Rightarrow> Object3D \<Rightarrow> Object3D \<Rightarrow> (Object3D \<Rightarrow> Object3D list) \<Rightarrow> (Object3D \<Rightarrow> Object3D list)" where
  "setSceneLoop i oldScene newScene ch =
     (if i < length (ch oldScene)
      then setSceneLoop (Suc i) oldScene newScene (Object3D_add newScene (ch oldScene ! i) ch)
      else ch)"
  by pat_completeness auto
termination
proof (relation "measure (\<lambda>(i, oldScene, newScene, ch). length (ch oldScene) - i)")
  show "wf (measure (\<lambda>(i, oldScene, newScene, ch). length (ch oldScene) - i))" by simp
next
  fix i :: nat and oldScene newScene :: Object3D and ch :: "Object3D \<Rightarrow> Object3D list"
  assume lt: "i < length (ch oldScene)"
  then have "ch oldScene ! i \<in> set (ch oldScene)" by simp
  then have "length (Object3D_add newScene (ch oldScene ! i) ch oldScene) \<le> length (ch oldScene)"
    by (cases "oldScene = newScene"; cases "ch oldScene ! i = newScene")
       (auto simp: Object3D_add_def length_remove1 in_set_conv_nth)
  with lt show "((Suc i, oldScene, newScene, Object3D_add newScene (ch oldScene ! i) ch),
                 (i, oldScene, newScene, ch))
                \<in> measure (\<lambda>(i, oldScene, newScene, ch). length (ch oldScene) - i)"
    by simp
qed

definition setScene :: "Object3D \<Rightarrow> RendererModuleState \<Rightarrow> RendererModuleState" where
  "setScene newScene s =
     s\<lparr>children := setSceneLoop 0 (scene s) newScene (children s), scene := newScene\<rparr>"

text \<open>\<open>onSetActiveScene\<close> for the message \<open>SetActiveScene e rid\<close>.\<close>

definition onSetActiveScene :: "nat \<Rightarrow> nat \<Rightarrow> RendererModuleState \<Rightarrow> RendererModuleState" where
  "onSetActiveScene e rid s =
     (case store s rid of
        None \<Rightarrow> s\<lparr>console := console s @ [Error_SceneNotFound rid e]\<rparr>
      | Some resourceInfo \<Rightarrow>
          (case resourceInfo of
             ResourceLoaded newScene \<Rightarrow> setScene newScene s
           | _ \<Rightarrow> s\<lparr>promiseCallbacks := promiseCallbacks s @ [(rid, SetSceneWhenLoaded)]\<rparr>))"

text \<open>
  \<open>onSetActiveCamera\<close>: \<open>renderables[index].object\<close> is \<open>undefined\<close> for an entry that has no
  object, and reading \<open>isPerspectiveCamera\<close> of it throws a \<open>TypeError\<close>. The projection of
  the camera is not part of the model.
\<close>

definition onSetActiveCamera :: "nat \<Rightarrow> RendererModuleState \<Rightarrow> Completion" where
  "onSetActiveCamera e s =
     (case renderableIndices s e of
        None \<Rightarrow> Returned s
      | Some index \<Rightarrow>
          if index < length (renderables s)
          then (case object (renderables s ! index) of
                  None \<Rightarrow> Threw TypeError s
                | Some cam \<Rightarrow> Returned (s\<lparr>camera := Some cam\<rparr>))
          else Returned s)"

text \<open>The \<open>switch\<close> of \<open>processRenderableMessages\<close>.\<close>

definition dispatch :: "RenderableMessages \<Rightarrow> RendererModuleState \<Rightarrow> Completion" where
  "dispatch message s =
     (case message of
        AddRenderable rid e \<Rightarrow> Returned (onAddRenderable rid e s)
      | RemoveRenderable e \<Rightarrow> Returned (onRemoveRenderable e s)
      | SetActiveCamera e \<Rightarrow> onSetActiveCamera e s
      | SetActiveScene e rid \<Rightarrow> Returned (onSetActiveScene e rid s))"

text \<open>
  The \<open>while\<close> loop of \<open>processRenderableMessages\<close>: it shifts the first message off the
  queue and dispatches it, until the queue is empty or a handler throws.
\<close>

function processRenderableMessages :: "RendererModuleState \<Rightarrow> Completion" where
  "processRenderableMessages s =
     (case renderableMessageQueue s of
        [] \<Rightarrow> Returned s
      | message # rest \<Rightarrow>
          (case dispatch message (s\<lparr>renderableMessageQueue := rest\<rparr>) of
             Returned s' \<Rightarrow> processRenderableMessages s'
           | Threw ex s' \<Rightarrow> Threw ex s'))"
  by pat_completeness auto
termination
proof (relation "measure (\<lambda>s. length (renderableMessageQueue s))")
  show "wf (measure (\<lambda>s. length (renderableMessageQueue s)))" by simp
next
  fix s :: RendererModuleState and message rest s'
  assume q: "renderableMessageQueue s = message # rest"
    and d: "dispatch message (s\<lparr>renderableMessageQueue := rest\<rparr>) = Returned s'"
  have removed: "renderableMessageQueue (sceneRemoveRemoved removed t) = renderableMessageQueue t"
    for removed t
    by (simp add: sceneRemoveRemoved_def split: list.splits option.splits)
  have "renderableMessageQueue (completionState (dispatch message t)) = renderableMessageQueue t"
    for t
    by (cases message)
       (auto simp: dispatch_def onAddRenderable_def onRemoveRenderable_def onSetActiveCamera_def
          onSetActiveScene_def setScene_def Let_def removed
          split: option.splits ResourceInfo.splits prod.splits list.splits)
  from this [of "s\<lparr>renderableMessageQueue := rest\<rparr>"] d
  have "renderableMessageQueue s' = rest" by simp
  with q show "(s', s) \<in> measure (\<lambda>s. length (renderableMessageQueue s))" by simp
qed

declare processRenderableMessages.simps [simp del]

text \<open>
  \<open>onUpdate\<close>, as far as the queue is concerned: the messages are processed first; then the
  frame swaps its read buffer and renders. \<open>scene\<close> and \<open>camera\<close> are read from the module
  before the messages are processed, so the frame renders the scene object and the camera it
  started with. An exception of a handler leaves \<open>onUpdate\<close> at once.
\<close>

definition onUpdate :: "RendererModuleState \<Rightarrow> Completion" where
  "onUpdate s =
     (case processRenderableMessages s of
        Threw ex s' \<Rightarrow> Threw ex s'
      | Returned s' \<Rightarrow>
          Returned (s'\<lparr>frameEffects := frameEffects s'
                         @ [SwapReadBuffer, Render (scene s) (children s' (scene s)) (camera s)]\<rparr>))"

text \<open>
  Modelled from the spec: the resource manager settling the load of a resource (its code
  lies outside the files covered here). The entry of the resource becomes \<open>Loaded\<close> with its
  payload, or \<open>Error\<close>, and every callback attached to the promise of the resource runs
  once, in the order of attachment: a \<open>.finally\<close> callback in both cases, a \<open>.then\<close>
  callback with the payload when the load succeeded. What a callback throws is lost.
\<close>

fun firePromiseCallback ::
  "Object3D option \<Rightarrow> PromiseCallback \<Rightarrow> RendererModuleState \<Rightarrow> RendererModuleState" where
  "firePromiseCallback result (RequeueAddRenderable rid e) s =
     completionState (requeueAddRenderable rid e s)"
| "firePromiseCallback (Some obj) SetSceneWhenLoaded s = setScene obj s"
| "firePromiseCallback None SetSceneWhenLoaded s = s"

definition settleResource :: "nat \<Rightarrow> ResourceInfo \<Rightarrow> RendererModuleState \<Rightarrow> RendererModuleState" where
  "settleResource rid resourceInfo s =
     (let result = (case resourceInfo of ResourceLoaded obj \<Rightarrow> Some obj | _ \<Rightarrow> None);
          attached = map snd (filter (\<lambda>(r, cb). r = rid) (promiseCallbacks s));
          s1 = s\<lparr>store := (store s)(rid \<mapsto> resourceInfo),
                 promiseCallbacks := filter (\<lambda>(r, cb). r \<noteq> rid) (promiseCallbacks s)\<rparr>
      in foldl (\<lambda>t cb. firePromiseCallback result cb t) s1 attached)"

text \<open>
  What happens to the renderer, one event after the other: the game thread posts a message,
  a frame runs, the load of a resource settles.
\<close>

datatype Event = Post RenderableMessages | Frame | ResourceSettled nat ResourceInfo

fun step :: "RendererModuleState \<Rightarrow> Event \<Rightarrow> RendererModuleState" where
  "step s (Post message) = onRenderableMessage message s"
| "step s Frame = completionState (onUpdate s)"
| "step s (ResourceSettled rid resourceInfo) = settleResource rid resourceInfo s"

definition run :: "Event list \<Rightarrow> RendererModuleState \<Rightarrow> RendererModuleState" where
  "run events s = foldl step s events"

text \<open>
  The state \<open>RendererModule.create\<close> returns, over a given resource store: an empty scene
  (object \<open>0\<close>), the initial camera (object \<open>1\<close>), no messages and no renderables.
\<close>

definition create :: "(nat \<rightharpoonup> ResourceInfo) \<Rightarrow> RendererModuleState" where
  "create resources =
     \<lparr>scene = 0, children = (\<lambda>_. []), camera = Some 1, store = resources,
      renderableMessageQueue = [], renderables = [], objectToEntityMap = Map.empty,
      renderableIndices = Map.empty, promiseCallbacks = [], console = [], frameEffects = []\<rparr>"

text \<open>
  The table of the entities is consistent when every index it holds is an index of
  \<open>renderables\<close> and the entry there belongs to the entity.
\<close>

definition indicesValid :: "RendererModuleState \<Rightarrow> bool" where
  "indicesValid s \<longleftrightarrow>
     (\<forall>e i. renderableIndices s e = Some i \<longrightarrow>
        i < length (renderables s) \<and> eid (renderables s ! i) = e)"

text \<open>
  Processing a list of messages in its order, each with the rest of the list as the queue:
  what first-in first-out draining of the queue means.
\<close>

fun drainInOrder :: "RenderableMessages list \<Rightarrow> RendererModuleState \<Rightarrow> Completion" where
  "drainInOrder [] s = Returned s"
| "drainInOrder (message # rest) s =
     (case dispatch message (s\<lparr>renderableMessageQueue := rest\<rparr>) of
        Returned s' \<Rightarrow> drainInOrder rest s'
      | Threw ex s' \<Rightarrow> Threw ex s')"

section \<open>Receiving on the reliable-ordered channel\<close>

text \<open>
  Modelled from the spec: the receiving side of the reliable-ordered channel (the inbound
  network code, \<open>engine/network\<close>, lies outside the files covered here; only its callers
  are among them). A message names its entity and carries a sequence number and the values
  of the fields it updates, each with the tag of its field. The receiver remembers, for
  every entity, the sequence number it applied last, and drops a message whose sequence
  number is not greater than that one; applying a message writes its fields into the state
  of the entity and leaves the other fields as they are.
\<close>

record NetworkMessage =
  entityId :: nat
  sequence :: nat
  fieldValues :: "(nat \<times> int) list"

record Receiver =
  lastApplied :: "nat \<rightharpoonup> nat"
  entityFields :: "nat \<Rightarrow> (nat \<rightharpoonup> int)"

definition applyMessage :: "NetworkMessage \<Rightarrow> Receiver \<Rightarrow> Receiver" where
  "applyMessage m r =
     r\<lparr>lastApplied := (lastApplied r)(entityId m \<mapsto> sequence m),
       entityFields := (entityFields r)
         (entityId m := foldl (\<lambda>fields (tag, v). fields(tag \<mapsto> v))
                          (entityFields r (entityId m)) (fieldValues m))\<rparr>"

definition receiveReliable :: "Receiver \<Rightarrow> NetworkMessage \<Rightarrow> Receiver" where
  "receiveReliable r m =
     (case lastApplied r (entityId m) of
        None \<Rightarrow> applyMessage m r
      | Some lastSeq \<Rightarrow> if sequence m \<le> lastSeq then r else applyMessage m r)"

definition deliver :: "NetworkMessage list \<Rightarrow> Receiver \<Rightarrow> Receiver" where
  "deliver ms r = foldl receiveReliable r ms"

definition freshReceiver :: Receiver where
  "freshReceiver = \<lparr>lastApplied = Map.empty, entityFields = (\<lambda>_. Map.empty)\<rparr>"

section \<open>Example states\<close>

definition loadedResources :: "nat \<rightharpoonup> ResourceInfo" where
  "loadedResources =
     [1 \<mapsto> ResourceLoaded 101, 2 \<mapsto> ResourceLoaded 102, 3 \<mapsto> ResourceLoaded 103]"

definition loadingResources :: "nat \<rightharpoonup> ResourceInfo" where
  "loadingResources = [1 \<mapsto> ResourceLoading, 2 \<mapsto> ResourceLoaded 102]"

text \<open>
  Three entities wait for resource \<open>1\<close>; entity \<open>11\<close> then changes to resource \<open>2\<close>, which is
  loaded, and entity \<open>10\<close> is removed. After a frame the load of resource \<open>1\<close> settles.
\<close>

definition supersededTrace :: "Event list" where
  "supersededTrace =
     [Post (AddRenderable 1 10), Post (AddRenderable 1 11), Post (AddRenderable 1 12),
      Post (AddRenderable 2 11), Post (RemoveRenderable 10), Frame,
      ResourceSettled 1 (ResourceLoaded 101)]"

text \<open>
  Two entities wait for resource \<open>1\<close>; the first one is removed. After a frame the load of
  resource \<open>1\<close> settles, and another frame runs.
\<close>

definition waitingTrace :: "Event list" where
  "waitingTrace =
     [Post (AddRenderable 1 10), Post (AddRenderable 1 11), Post (RemoveRenderable 10), Frame,
      ResourceSettled 1 (ResourceLoaded 101), Frame]"

lemmas renderer_defs =
  create_def onAddRenderable_def onRemoveRenderable_def splice_def sceneRemoveRemoved_def
  Object3D_add_def Object3D_remove_def Let_def loadedResources_def loadingResources_def

lemmas run_defs =
  run_def onRenderableMessage_def onUpdate_def processRenderableMessages.simps dispatch_def
  settleResource_def requeueAddRenderable_def onSetActiveCamera_def


section \<open>Properties of audio data loading\<close>


lemma updateAudioData_length:
  "length (audioDatas (updateAudioData s i)) = length (audioDatas s)"
  by (simp add: updateAudioData_def Let_def)

lemma foldl_updateAudioData_length:
  "length (audioDatas (foldl updateAudioData s js)) = length (audioDatas s)"
  by (induction js arbitrary: s) (simp_all add: updateAudioData_length)

lemma updateAudioData_keeps:
  assumes "loadStatus (audioDatas s ! i) \<noteq> Uninitialized"
  shows "audioDatas (updateAudioData s j) ! i = audioDatas s ! i"
    and "i \<in> set (pendingLoads (updateAudioData s j)) \<Longrightarrow> i \<in> set (pendingLoads s)"
  using assms
  by (cases "i = j"; cases "j < length (audioDatas s)";
      auto simp: updateAudioData_def Let_def nth_list_update split: if_splits)+

lemma foldl_updateAudioData_keeps:
  assumes "loadStatus (audioDatas s ! i) \<noteq> Uninitialized"
  shows "audioDatas (foldl updateAudioData s js) ! i = audioDatas s ! i
       \<and> (i \<in> set (pendingLoads (foldl updateAudioData s js)) \<longrightarrow> i \<in> set (pendingLoads s))"
  using assms
proof (induction js arbitrary: s)
  case Nil
  then show ?case by simp
next
  case (Cons j js)
  have same: "audioDatas (updateAudioData s j) ! i = audioDatas s ! i"
    using Cons.prems by (rule updateAudioData_keeps(1))
  then have "loadStatus (audioDatas (updateAudioData s j) ! i) \<noteq> Uninitialized"
    using Cons.prems by simp
  from Cons.IH [OF this] same updateAudioData_keeps(2) [OF Cons.prems]
  show ?case by auto
qed

lemma updateAudioDatas_keeps:
  assumes "loadStatus (audioDatas s ! i) \<noteq> Uninitialized"
  shows "audioDatas (updateAudioDatas s) ! i = audioDatas s ! i
       \<and> (i \<in> set (pendingLoads (updateAudioDatas s)) \<longrightarrow> i \<in> set (pendingLoads s))"
  unfolding updateAudioDatas_def by (rule foldl_updateAudioData_keeps [OF assms])

lemma updateAudioDatas_iterate_keeps:
  assumes "loadStatus (audioDatas s ! i) \<noteq> Uninitialized"
  shows "audioDatas ((updateAudioDatas ^^ n) s) ! i = audioDatas s ! i
       \<and> (i \<in> set (pendingLoads ((updateAudioDatas ^^ n) s)) \<longrightarrow> i \<in> set (pendingLoads s))"
proof (induction n)
  case 0
  then show ?case by simp
next
  case (Suc n)
  let ?t = "(updateAudioDatas ^^ n) s"
  from Suc have "loadStatus (audioDatas ?t ! i) \<noteq> Uninitialized"
    using assms by simp
  from updateAudioDatas_keeps [OF this] Suc show ?case by simp
qed

lemma updateAudioData_started:
  assumes "i \<in> set (pendingLoads (updateAudioData s j))" "i \<notin> set (pendingLoads s)"
  shows "i = j \<and> loadStatus (audioDatas s ! i) = Uninitialized"
  using assms by (auto simp: updateAudioData_def Let_def split: if_splits)

lemma foldl_updateAudioData_pending:
  "i \<in> set (pendingLoads (foldl updateAudioData s js)) \<Longrightarrow>
   i \<in> set (pendingLoads s) \<or> i \<in> set js"
proof (induction js arbitrary: s)
  case Nil
  then show ?case by simp
next
  case (Cons j js)
  from Cons.IH [of "updateAudioData s j"] Cons.prems
  have "i \<in> set (pendingLoads (updateAudioData s j)) \<or> i \<in> set js" by simp
  then show ?case
    by (auto simp: updateAudioData_def Let_def split: if_splits)
qed

lemma settleLoad_rejected_status:
  assumes "i \<in> set (pendingLoads s)" "i < length (audioDatas s)" "name \<noteq> Some ''AbortError''"
  shows "loadStatus (audioDatas (settleLoad i (Rejected name) s) ! i) = Error"
  using assms by (simp add: settleLoad_def loadSettled_def onLoadRejected_def)

text \<open>
  C1. A resource that is already \<open>Disposed\<close> when its load completes stays as it is: a
  fulfilled load (and an aborted one) changes nothing, so the payload is dropped and the
  status remains \<open>Disposed\<close>; however the load settles, the resource does not become
  \<open>Loaded\<close> and its \<open>data\<close> is not written.
\<close>

theorem disposed_load_result_discarded:
  assumes "loadStatus audioData = Disposed"
  shows "loadSettled (Resolved d) audioData = audioData
       \<and> loadSettled (Rejected (Some ''AbortError'')) audioData = audioData
       \<and> (\<forall>outcome. loadStatus (loadSettled outcome audioData) \<noteq> Loaded
                     \<and> data (loadSettled outcome audioData) = data audioData)"
proof -
  have "loadStatus (loadSettled outcome audioData) \<noteq> Loaded
      \<and> data (loadSettled outcome audioData) = data audioData" for outcome
    using assms
    by (cases outcome) (simp_all add: loadSettled_def onLoadFulfilled_def onLoadRejected_def)
  moreover have "loadSettled (Resolved d) audioData = audioData"
    using assms by (simp add: loadSettled_def onLoadFulfilled_def)
  moreover have "loadSettled (Rejected (Some ''AbortError'')) audioData = audioData"
    by (simp add: loadSettled_def onLoadRejected_def)
  ultimately show ?thesis by blast
qed

theorem disposed_load_result_discarded_witness:
  "loadSettled (Resolved (Some 7)) \<lparr>loadStatus = Disposed, data = None, abortController = True\<rparr>
     = \<lparr>loadStatus = Disposed, data = None, abortController = True\<rparr>
   \<and> loadStatus (loadSettled (Rejected None)
         \<lparr>loadStatus = Disposed, data = None, abortController = True\<rparr>) \<noteq> Loaded"
  using disposed_load_result_discarded
    [of "\<lparr>loadStatus = Disposed, data = None, abortController = True\<rparr>" "Some 7"]
  by simp

text \<open>
  C7. A load that fails (is rejected with anything but an \<open>AbortError\<close>) leaves the
  resource in \<open>Error\<close>, and no later run of \<open>updateAudioDatas\<close> changes the resource or
  starts a load for it; a run of \<open>updateAudioDatas\<close> starts a load only for a resource that
  is \<open>Uninitialized\<close>.
\<close>

theorem load_failure_terminal:
  "(i \<in> set (pendingLoads s) \<and> i < length (audioDatas s) \<and> name \<noteq> Some ''AbortError'' \<longrightarrow>
      loadStatus (audioDatas (settleLoad i (Rejected name) s) ! i) = Error
    \<and> audioDatas ((updateAudioDatas ^^ n) (settleLoad i (Rejected name) s)) ! i
        = audioDatas (settleLoad i (Rejected name) s) ! i
    \<and> (i \<in> set (pendingLoads ((updateAudioDatas ^^ n) (settleLoad i (Rejected name) s))) \<longrightarrow>
        i \<in> set (pendingLoads (settleLoad i (Rejected name) s))))
   \<and> (k \<in> set (pendingLoads (updateAudioDatas s)) \<and> k \<notin> set (pendingLoads s) \<longrightarrow>
        k < length (audioDatas s) \<and> loadStatus (audioDatas s ! k) = Uninitialized)"
proof -
  have first: "loadStatus (audioDatas (settleLoad i (Rejected name) s) ! i) = Error
    \<and> audioDatas ((updateAudioDatas ^^ n) (settleLoad i (Rejected name) s)) ! i
        = audioDatas (settleLoad i (Rejected name) s) ! i
    \<and> (i \<in> set (pendingLoads ((updateAudioDatas ^^ n) (settleLoad i (Rejected name) s))) \<longrightarrow>
        i \<in> set (pendingLoads (settleLoad i (Rejected name) s)))"
    if h: "i \<in> set (pendingLoads s)" "i < length (audioDatas s)" "name \<noteq> Some ''AbortError''"
  proof -
    let ?t = "settleLoad i (Rejected name) s"
    have err: "loadStatus (audioDatas ?t ! i) = Error"
      using h by (rule settleLoad_rejected_status)
    then have "loadStatus (audioDatas ?t ! i) \<noteq> Uninitialized" by simp
    from updateAudioDatas_iterate_keeps [OF this, of n] err show ?thesis by simp
  qed
  have second: "k < length (audioDatas s) \<and> loadStatus (audioDatas s ! k) = Uninitialized"
    if h: "k \<in> set (pendingLoads (updateAudioDatas s))" "k \<notin> set (pendingLoads s)"
  proof -
    from foldl_updateAudioData_pending [of k s "[0..<length (audioDatas s)]"] h
    have "k < length (audioDatas s)" by (simp add: updateAudioDatas_def)
    moreover have "loadStatus (audioDatas s ! k) = Uninitialized"
    proof (rule ccontr)
      assume "loadStatus (audioDatas s ! k) \<noteq> Uninitialized"
      from updateAudioDatas_keeps [OF this] h show False by simp
    qed
    ultimately show ?thesis by simp
  qed
  from first second show ?thesis by blast
qed

theorem load_failure_terminal_witness:
  "loadStatus (audioDatas (settleLoad 0 (Rejected (Some ''EncodingError'')) audioExample) ! 0) = Error
   \<and> loadStatus (audioDatas ((updateAudioDatas ^^ 2)
         (settleLoad 0 (Rejected (Some ''EncodingError'')) audioExample)) ! 0) = Error
   \<and> 1 \<in> set (pendingLoads (updateAudioDatas audioExample))
   \<and> loadStatus (audioDatas audioExample ! 1) = Uninitialized"
proof -
  have pre: "0 \<in> set (pendingLoads audioExample) \<and> 0 < length (audioDatas audioExample)
             \<and> Some ''EncodingError'' \<noteq> Some ''AbortError''"
    by (simp add: audioExample_def)
  have started: "1 \<in> set (pendingLoads (updateAudioDatas audioExample))
                 \<and> 1 \<notin> set (pendingLoads audioExample)"
    by (simp add: audioExample_def updateAudioDatas_def updateAudioData_def upt_rec)
  from load_failure_terminal [of 0 audioExample "Some ''EncodingError''" 2 1] pre started
  show ?thesis by simp
qed

section \<open>Properties of the renderer\<close>

subsection \<open>What the helpers leave alone\<close>

lemma sceneRemoveRemoved_fields [simp]:
  "renderables (sceneRemoveRemoved removed s) = renderables s"
  "renderableIndices (sceneRemoveRemoved removed s) = renderableIndices s"
  "promiseCallbacks (sceneRemoveRemoved removed s) = promiseCallbacks s"
  "renderableMessageQueue (sceneRemoveRemoved removed s) = renderableMessageQueue s"
  "objectToEntityMap (sceneRemoveRemoved removed s) = objectToEntityMap s"
  "frameEffects (sceneRemoveRemoved removed s) = frameEffects s"
  "scene (sceneRemoveRemoved removed s) = scene s"
  "store (sceneRemoveRemoved removed s) = store s"
  by (simp_all add: sceneRemoveRemoved_def split: list.splits option.splits)

lemma splice_replace_mem: "x \<in> set (snd (splice i n [x] xs))"
  by (simp add: splice_def)

lemma splice_replace_nth:
  assumes "i \<le> length xs"
  shows "i < length (snd (splice i 1 [x] xs))" and "snd (splice i 1 [x] xs) ! i = x"
  using assms by (simp_all add: splice_def nth_append)

lemma splice_replace_in_range:
  assumes "i < length xs"
  shows "splice i 1 [x] xs = ([xs ! i], xs[i := x])"
  using assms
  by (simp add: splice_def upd_conv_take_nth_drop take_Suc_conv_app_nth drop_Suc
        flip: Cons_nth_drop_Suc)

lemmas splice_replace_in_range' = splice_replace_in_range [unfolded One_nat_def]

lemma splice_replace_at:
  assumes "i < length (snd (splice i (Suc 0) [x] xs))"
  shows "snd (splice i (Suc 0) [x] xs) ! i = x"
  using assms by (cases "i \<le> length xs") (auto simp: splice_def nth_append)

lemma Object3D_add_mem: "obj \<noteq> this \<Longrightarrow> obj \<in> set (Object3D_add this obj ch this)"
  by (simp add: Object3D_add_def)

lemma requeueAddRenderable_current:
  assumes "renderableIndices t e = Some i" "i < length (renderables t)"
    "resourceId (renderables t ! i) = rid"
  shows "requeueAddRenderable rid e t =
           Returned (t\<lparr>renderableMessageQueue := renderableMessageQueue t @ [AddRenderable rid e]\<rparr>)"
  using assms by (simp add: requeueAddRenderable_def)

lemma requeueAddRenderable_fields [simp]:
  "renderables (completionState (requeueAddRenderable rid e s)) = renderables s"
  "renderableIndices (completionState (requeueAddRenderable rid e s)) = renderableIndices s"
  "promiseCallbacks (completionState (requeueAddRenderable rid e s)) = promiseCallbacks s"
  by (simp_all add: requeueAddRenderable_def split: option.splits)

lemma firePromiseCallback_fields [simp]:
  "renderables (firePromiseCallback result cb s) = renderables s"
  "renderableIndices (firePromiseCallback result cb s) = renderableIndices s"
  "promiseCallbacks (firePromiseCallback result cb s) = promiseCallbacks s"
  by (cases cb; cases result; simp add: setScene_def)+

lemma foldl_firePromiseCallback_fields [simp]:
  "renderables (foldl (\<lambda>t cb. firePromiseCallback result cb t) s cbs) = renderables s"
  "renderableIndices (foldl (\<lambda>t cb. firePromiseCallback result cb t) s cbs) = renderableIndices s"
  "promiseCallbacks (foldl (\<lambda>t cb. firePromiseCallback result cb t) s cbs) = promiseCallbacks s"
  by (induction cbs arbitrary: s) simp_all

lemma settleResource_fields:
  "renderables (settleResource rid info s) = renderables s"
  "renderableIndices (settleResource rid info s) = renderableIndices s"
  "promiseCallbacks (settleResource rid info s) = filter (\<lambda>(r, cb). r \<noteq> rid) (promiseCallbacks s)"
  by (simp_all add: settleResource_def Let_def)

lemma settleResource_last_requeue:
  assumes cbs: "promiseCallbacks s = cbs @ [(rid, RequeueAddRenderable rid e)]"
    and idx: "renderableIndices s e = Some i" "i < length (renderables s)"
      "resourceId (renderables s ! i) = rid"
  shows "\<exists>ms. renderableMessageQueue (settleResource rid info s) = ms @ [AddRenderable rid e]"
proof -
  let ?result = "case info of ResourceLoaded obj \<Rightarrow> Some obj | _ \<Rightarrow> None"
  let ?s1 = "s\<lparr>store := (store s)(rid \<mapsto> info),
               promiseCallbacks := filter (\<lambda>(r, cb). r \<noteq> rid) (promiseCallbacks s)\<rparr>"
  let ?before = "foldl (\<lambda>t cb. firePromiseCallback ?result cb t) ?s1
                   (map snd (filter (\<lambda>(r, cb). r = rid) cbs))"
  have "settleResource rid info s = firePromiseCallback ?result (RequeueAddRenderable rid e) ?before"
    by (simp add: settleResource_def Let_def cbs)
  moreover have "renderableIndices ?before e = Some i" "i < length (renderables ?before)"
    "resourceId (renderables ?before ! i) = rid"
    using idx by simp_all
  ultimately show ?thesis
    by (simp add: requeueAddRenderable_current)
qed

subsection \<open>\<open>onAddRenderable\<close>, field by field\<close>

lemma onAddRenderable_loading:
  assumes "store s rid = Some ResourceLoading"
  shows "renderables (onAddRenderable rid e s) =
           (case renderableIndices s e of
              None \<Rightarrow> renderables s @ [\<lparr>object = None, helper = None, eid = e, resourceId = rid\<rparr>]
            | Some i \<Rightarrow> snd (splice i 1 [\<lparr>object = None, helper = None, eid = e, resourceId = rid\<rparr>]
                             (renderables s)))"
    and "renderableIndices (onAddRenderable rid e s) =
           (case renderableIndices s e of
              None \<Rightarrow> (renderableIndices s)(e \<mapsto> length (renderables s))
            | Some i \<Rightarrow> renderableIndices s)"
    and "promiseCallbacks (onAddRenderable rid e s) = promiseCallbacks s @ [(rid, RequeueAddRenderable rid e)]"
    and "renderableMessageQueue (onAddRenderable rid e s) = renderableMessageQueue s"
  using assms
  by (simp_all add: onAddRenderable_def Let_def split: option.splits prod.splits)

lemma onAddRenderable_loaded:
  assumes "store s rid = Some (ResourceLoaded obj)"
  shows "renderables (onAddRenderable rid e s) =
           (case renderableIndices s e of
              None \<Rightarrow> renderables s @ [\<lparr>object = Some obj, helper = None, eid = e, resourceId = rid\<rparr>]
            | Some i \<Rightarrow> snd (splice i 1 [\<lparr>object = Some obj, helper = None, eid = e, resourceId = rid\<rparr>]
                             (renderables s)))"
    and "renderableIndices (onAddRenderable rid e s) =
           (case renderableIndices s e of
              None \<Rightarrow> (renderableIndices s)(e \<mapsto> length (renderables s))
            | Some i \<Rightarrow> renderableIndices s)"
    and "scene (onAddRenderable rid e s) = scene s"
    and "obj \<noteq> scene s \<Longrightarrow> obj \<in> set (children (onAddRenderable rid e s) (scene s))"
  using assms
  by (simp_all add: onAddRenderable_def Let_def Object3D_add_mem split: option.splits prod.splits)

lemma onAddRenderable_other_fields:
  "store (onAddRenderable rid e s) = store s"
  "scene (onAddRenderable rid e s) = scene s"
  "renderableMessageQueue (onAddRenderable rid e s) = renderableMessageQueue s"
  "frameEffects (onAddRenderable rid e s) = frameEffects s"
  by (simp_all add: onAddRenderable_def Let_def
        split: option.splits ResourceInfo.splits prod.splits)

lemma onRemoveRenderable_other_fields:
  "renderableMessageQueue (onRemoveRenderable e s) = renderableMessageQueue s"
  "frameEffects (onRemoveRenderable e s) = frameEffects s"
  by (simp_all add: onRemoveRenderable_def Let_def
        split: option.splits prod.splits list.splits)

lemma onSetActiveScene_other_fields:
  "renderableMessageQueue (onSetActiveScene e rid s) = renderableMessageQueue s"
  "frameEffects (onSetActiveScene e rid s) = frameEffects s"
  by (simp_all add: onSetActiveScene_def setScene_def split: option.splits ResourceInfo.splits)

lemma onSetActiveCamera_other_fields:
  "renderableMessageQueue (completionState (onSetActiveCamera e s)) = renderableMessageQueue s"
  "frameEffects (completionState (onSetActiveCamera e s)) = frameEffects s"
  by (simp_all add: onSetActiveCamera_def split: option.splits)

lemma dispatch_fields:
  "renderableMessageQueue (completionState (dispatch message s)) = renderableMessageQueue s"
  "frameEffects (completionState (dispatch message s)) = frameEffects s"
  by (simp_all add: dispatch_def onAddRenderable_other_fields onRemoveRenderable_other_fields
        onSetActiveScene_other_fields onSetActiveCamera_other_fields
        split: RenderableMessages.splits)

lemma onRemoveRenderable_indices:
  "renderableIndices (onRemoveRenderable e s) e = None"
  by (simp add: onRemoveRenderable_def Let_def split: option.splits prod.splits list.splits)

subsection \<open>The table of the entities\<close>

text \<open>
  \<open>onAddRenderable\<close> keeps the table of the entities consistent; \<open>onRemoveRenderable\<close> does
  not, as the example after this lemma shows.
\<close>

lemma onAddRenderable_indicesValid:
  assumes valid: "indicesValid s"
  shows "indicesValid (onAddRenderable rid e s)"
proof (cases "store s rid")
  case None
  with valid show ?thesis by (simp add: onAddRenderable_def indicesValid_def)
next
  case (Some info)
  have table: "indicesValid t"
    if rs: "renderables t =
              (case renderableIndices s e of
                 None \<Rightarrow> renderables s @ [entry]
               | Some i \<Rightarrow> snd (splice i 1 [entry] (renderables s)))"
      and ix: "renderableIndices t =
              (case renderableIndices s e of
                 None \<Rightarrow> (renderableIndices s)(e \<mapsto> length (renderables s))
               | Some i \<Rightarrow> renderableIndices s)"
      and entry: "eid entry = e"
    for t and entry :: Renderable
  proof (cases "renderableIndices s e")
    case None
    with rs ix entry valid show ?thesis
      by (auto simp: indicesValid_def nth_append less_Suc_eq)
  next
    case (Some i)
    with valid have lt: "i < length (renderables s)" by (simp add: indicesValid_def)
    with Some rs have upd: "renderables t = (renderables s)[i := entry]"
      by (simp add: splice_replace_in_range')
    have own: "eid (renderables s ! k) = e'" "k < length (renderables s)"
      if "renderableIndices s e' = Some k" for e' k
      using that valid by (simp_all add: indicesValid_def)
    have "k < length (renderables t) \<and> eid (renderables t ! k) = e'"
      if k: "renderableIndices t e' = Some k" for e' k
    proof (cases "k = i")
      case True
      with k Some ix own(1) [of e' i] own(1) [of e i] have "e' = e" by simp
      with True upd entry lt show ?thesis by simp
    next
      case False
      with k Some ix own [of e' k] upd show ?thesis by simp
    qed
    then show ?thesis by (simp add: indicesValid_def)
  qed
  show ?thesis
  proof (cases info)
    case ResourceLoading
    with Some have "store s rid = Some ResourceLoading" by simp
    from onAddRenderable_loading(1,2) [OF this, of e] show ?thesis
      by (rule table) simp
  next
    case (ResourceLoaded obj)
    with Some have "store s rid = Some (ResourceLoaded obj)" by simp
    from onAddRenderable_loaded(1,2) [OF this, of e] show ?thesis
      by (rule table) simp
  next
    case ResourceError
    with Some valid show ?thesis by (simp add: onAddRenderable_def indicesValid_def)
  qed
qed

text \<open>
  C9. The table of the entities does not stay consistent: after two entities are added and
  the first one is removed, the table still holds index 1 for the second entity, while
  \<open>renderables\<close> has one element left.
\<close>

theorem remove_leaves_stale_index:
  "renderableIndices
     (onRemoveRenderable 10 (onAddRenderable 2 11 (onAddRenderable 1 10 (create loadedResources)))) 11
     = Some 1
   \<and> renderables
     (onRemoveRenderable 10 (onAddRenderable 2 11 (onAddRenderable 1 10 (create loadedResources))))
     = [\<lparr>object = Some 102, helper = None, eid = 11, resourceId = 2\<rparr>]"
  by (simp add: renderer_defs)

subsection \<open>Adding a renderable\<close>

text \<open>
  With a loaded resource and a consistent table, the entry of the entity carries the
  resource and its object afterwards, the object is in the scene (unless it is the scene
  itself), and the object the entity had before is out of the scene.
\<close>

lemma addRenderable_loaded_attaches:
  assumes loaded: "store s rid = Some (ResourceLoaded obj)" and valid: "indicesValid s"
    and other: "obj \<noteq> scene s"
  shows "\<exists>i. renderableIndices (onAddRenderable rid e s) e = Some i
            \<and> i < length (renderables (onAddRenderable rid e s))
            \<and> renderables (onAddRenderable rid e s) ! i
                = \<lparr>object = Some obj, helper = None, eid = e, resourceId = rid\<rparr>"
    and "obj \<in> set (children (onAddRenderable rid e s) (scene (onAddRenderable rid e s)))"
    and "\<lbrakk>renderableIndices s e = Some i; object (renderables s ! i) = Some old; old \<noteq> obj;
          distinct (children s (scene s))\<rbrakk>
         \<Longrightarrow> old \<notin> set (children (onAddRenderable rid e s) (scene (onAddRenderable rid e s)))"
proof -
  note fields = onAddRenderable_loaded [OF loaded, of e]
  show "\<exists>i. renderableIndices (onAddRenderable rid e s) e = Some i
            \<and> i < length (renderables (onAddRenderable rid e s))
            \<and> renderables (onAddRenderable rid e s) ! i
                = \<lparr>object = Some obj, helper = None, eid = e, resourceId = rid\<rparr>"
  proof (cases "renderableIndices s e")
    case None
    then show ?thesis by (simp add: fields)
  next
    case (Some i)
    with valid have "i < length (renderables s)" by (simp add: indicesValid_def)
    with Some show ?thesis by (simp add: fields splice_replace_in_range')
  qed
  show "obj \<in> set (children (onAddRenderable rid e s) (scene (onAddRenderable rid e s)))"
    using other by (simp add: fields)
  show "old \<notin> set (children (onAddRenderable rid e s) (scene (onAddRenderable rid e s)))"
    if "renderableIndices s e = Some i" "object (renderables s ! i) = Some old" "old \<noteq> obj"
      "distinct (children s (scene s))"
  proof -
    from that(1) valid have "i < length (renderables s)" by (simp add: indicesValid_def)
    with that loaded other show ?thesis
      by (simp add: onAddRenderable_def Let_def splice_replace_in_range' sceneRemoveRemoved_def
            Object3D_add_def Object3D_remove_def)
  qed
qed

text \<open>
  C4. With a table that is not consistent the object the entity had before stays: entity
  \<open>11\<close> holds the object \<open>102\<close> of resource \<open>2\<close>, and the table holds the index 1 for it
  after entity \<open>10\<close> was removed. \<open>AddRenderable\<close> with the loaded resource \<open>3\<close> for entity
  \<open>11\<close> then appends a second entry for the entity, and the object \<open>102\<close> remains in
  \<open>renderables\<close> and in the scene beside the new object \<open>103\<close>.
\<close>

theorem stale_index_keeps_previous_object:
  "renderables (onRemoveRenderable 10 (onAddRenderable 2 11 (onAddRenderable 1 10 (create loadedResources))))
     = [\<lparr>object = Some 102, helper = None, eid = 11, resourceId = 2\<rparr>]
   \<and> store (onRemoveRenderable 10 (onAddRenderable 2 11 (onAddRenderable 1 10 (create loadedResources)))) 3
     = Some (ResourceLoaded 103)
   \<and> renderables (onAddRenderable 3 11
       (onRemoveRenderable 10 (onAddRenderable 2 11 (onAddRenderable 1 10 (create loadedResources)))))
     = [\<lparr>object = Some 102, helper = None, eid = 11, resourceId = 2\<rparr>,
        \<lparr>object = Some 103, helper = None, eid = 11, resourceId = 3\<rparr>]
   \<and> children (onAddRenderable 3 11
       (onRemoveRenderable 10 (onAddRenderable 2 11 (onAddRenderable 1 10 (create loadedResources)))))
       (scene (onAddRenderable 3 11
         (onRemoveRenderable 10 (onAddRenderable 2 11 (onAddRenderable 1 10 (create loadedResources))))))
     = [102, 103]"
  by (simp add: renderer_defs)

text \<open>
  While the resource is \<open>Loading\<close>, \<open>onAddRenderable\<close> stores an entry without object for
  the entity (it is the entry at the index of the entity whenever that index lies within
  \<open>renderables\<close>) and attaches one callback, for this message, to the promise of the
  resource; it puts nothing on the queue itself. The callback puts the message back on the
  queue when the entry the table holds for the entity still carries the resource id. That
  is the case when the load settles next and the index the table held for the entity before
  (if any) was not beyond the end of \<open>renderables\<close>: the message is then the last one on the
  queue.
\<close>

lemma addRenderable_loading_stores_placeholder:
  assumes "store s rid = Some ResourceLoading"
  shows "\<lparr>object = None, helper = None, eid = e, resourceId = rid\<rparr>
           \<in> set (renderables (onAddRenderable rid e s))
       \<and> renderableIndices (onAddRenderable rid e s) e \<noteq> None
       \<and> (\<forall>i. renderableIndices (onAddRenderable rid e s) e = Some i
                 \<and> i < length (renderables (onAddRenderable rid e s)) \<longrightarrow>
             renderables (onAddRenderable rid e s) ! i
               = \<lparr>object = None, helper = None, eid = e, resourceId = rid\<rparr>)
       \<and> promiseCallbacks (onAddRenderable rid e s)
           = promiseCallbacks s @ [(rid, RequeueAddRenderable rid e)]
       \<and> renderableMessageQueue (onAddRenderable rid e s) = renderableMessageQueue s
       \<and> (\<forall>t i. renderableIndices t e = Some i \<and> i < length (renderables t)
                 \<and> resourceId (renderables t ! i) = rid \<longrightarrow>
             requeueAddRenderable rid e t =
               Returned (t\<lparr>renderableMessageQueue := renderableMessageQueue t @ [AddRenderable rid e]\<rparr>))
       \<and> ((case renderableIndices s e of None \<Rightarrow> True | Some i \<Rightarrow> i \<le> length (renderables s)) \<longrightarrow>
             (\<exists>ms. renderableMessageQueue (settleResource rid info (onAddRenderable rid e s))
                    = ms @ [AddRenderable rid e]))"
proof -
  let ?entry = "\<lparr>object = None, helper = None, eid = e, resourceId = rid\<rparr>"
  let ?s' = "onAddRenderable rid e s"
  note loading = onAddRenderable_loading [OF assms, of e]
  have mem: "?entry \<in> set (renderables ?s')"
    by (cases "renderableIndices s e") (simp_all add: loading splice_replace_mem)
  have idx: "renderableIndices ?s' e \<noteq> None"
    by (cases "renderableIndices s e") (simp_all add: loading)
  have at: "renderables ?s' ! i = ?entry"
    if "renderableIndices ?s' e = Some i" "i < length (renderables ?s')" for i
    using that
    by (cases "renderableIndices s e") (auto simp: loading splice_replace_at)
  have requeue: "\<exists>ms. renderableMessageQueue (settleResource rid info ?s') = ms @ [AddRenderable rid e]"
    if ok: "case renderableIndices s e of None \<Rightarrow> True | Some i \<Rightarrow> i \<le> length (renderables s)"
  proof (cases "renderableIndices s e")
    case None
    then have "renderableIndices ?s' e = Some (length (renderables s))"
      "length (renderables s) < length (renderables ?s')"
      "resourceId (renderables ?s' ! length (renderables s)) = rid"
      by (simp_all add: loading)
    with loading(3) show ?thesis
      by (rule settleResource_last_requeue)
  next
    case (Some i)
    with ok have le: "i \<le> length (renderables s)" by simp
    from Some splice_replace_nth [OF le, of ?entry]
    have "renderableIndices ?s' e = Some i" "i < length (renderables ?s')"
      "resourceId (renderables ?s' ! i) = rid"
      by (simp_all add: loading)
    with loading(3) show ?thesis
      by (rule settleResource_last_requeue)
  qed
  from mem idx at loading(3,4) requeue show ?thesis
    by (simp add: requeueAddRenderable_current)
qed

text \<open>
  C5. The callback \<open>onAddRenderable\<close> attaches while the resource is \<open>Loading\<close> does not
  always put the message back on the queue when the load resolves. Entities \<open>10\<close> and \<open>11\<close>
  are added while resource \<open>1\<close> is loading: each gets an entry without object and a
  callback. Entity \<open>10\<close> is removed, which moves the entry of entity \<open>11\<close> to index 0 while
  the table keeps index 1 for it. When the load of resource \<open>1\<close> resolves, the callback of
  entity \<open>11\<close> reads \<open>renderables[1]\<close>, which is not there, and throws: the queue stays
  empty, and after the next frame entity \<open>11\<close> still has its entry without object and the
  scene is empty, although the resource is loaded and the entity never changed it.
\<close>

theorem stale_index_callback_never_requeues:
  "renderables (run (take 4 waitingTrace) (create loadingResources))
     = [\<lparr>object = None, helper = None, eid = 11, resourceId = 1\<rparr>]
   \<and> renderableIndices (run (take 4 waitingTrace) (create loadingResources)) 11 = Some 1
   \<and> promiseCallbacks (run (take 4 waitingTrace) (create loadingResources))
     = [(1, RequeueAddRenderable 1 10), (1, RequeueAddRenderable 1 11)]
   \<and> store (run (take 4 waitingTrace) (create loadingResources)) 1 = Some ResourceLoading
   \<and> requeueAddRenderable 1 11 (run (take 4 waitingTrace) (create loadingResources))
     = Threw TypeError (run (take 4 waitingTrace) (create loadingResources))
   \<and> renderableMessageQueue (run (take 5 waitingTrace) (create loadingResources)) = []
   \<and> store (run waitingTrace (create loadingResources)) 1 = Some (ResourceLoaded 101)
   \<and> renderables (run waitingTrace (create loadingResources))
     = [\<lparr>object = None, helper = None, eid = 11, resourceId = 1\<rparr>]
   \<and> children (run waitingTrace (create loadingResources))
       (scene (run waitingTrace (create loadingResources))) = []"
  by (simp add: renderer_defs run_defs waitingTrace_def)

text \<open>
  C10. For a resource id the store has no entry for, \<open>onAddRenderable\<close> logs a warning and
  changes nothing else: \<open>renderables\<close>, \<open>renderableIndices\<close>, \<open>objectToEntityMap\<close> and the
  scene are as before.
\<close>

theorem addRenderable_unknown_resource:
  assumes "store s rid = None"
  shows "onAddRenderable rid e s = s\<lparr>console := console s @ [Warn_UnknownResourceId rid e]\<rparr>
       \<and> renderables (onAddRenderable rid e s) = renderables s
       \<and> renderableIndices (onAddRenderable rid e s) = renderableIndices s
       \<and> objectToEntityMap (onAddRenderable rid e s) = objectToEntityMap s
       \<and> scene (onAddRenderable rid e s) = scene s
       \<and> children (onAddRenderable rid e s) = children s"
  using assms by (simp add: onAddRenderable_def)

theorem addRenderable_unknown_resource_witness:
  "store (create loadedResources) 9 = None
   \<and> onAddRenderable 9 10 (create loadedResources)
       = (create loadedResources)\<lparr>console := [Warn_UnknownResourceId 9 10]\<rparr>
   \<and> renderables (onAddRenderable 9 10 (create loadedResources)) = []"
proof -
  have pre: "store (create loadedResources) 9 = None"
    by (simp add: create_def loadedResources_def)
  from addRenderable_unknown_resource [OF pre, of 10] pre show ?thesis
    by (simp add: create_def)
qed

subsection \<open>Removing a renderable\<close>

text \<open>
  C6. \<open>onRemoveRenderable\<close> is idempotent: run twice for an entity it leaves the state the
  first run left; for an entity the table has no entry for it changes nothing, and it never
  throws.
\<close>

theorem removeRenderable_idempotent:
  "onRemoveRenderable e (onRemoveRenderable e s) = onRemoveRenderable e s
   \<and> (renderableIndices s e = None \<longrightarrow> onRemoveRenderable e s = s)"
proof -
  have none: "onRemoveRenderable e t = t" if "renderableIndices t e = None" for t
    using that by (simp add: onRemoveRenderable_def)
  from none [OF onRemoveRenderable_indices] none show ?thesis by blast
qed

theorem removeRenderable_idempotent_witness:
  "renderableIndices (onAddRenderable 1 10 (create loadedResources)) 11 = None
   \<and> onRemoveRenderable 11 (onAddRenderable 1 10 (create loadedResources))
       = onAddRenderable 1 10 (create loadedResources)
   \<and> onRemoveRenderable 10 (onRemoveRenderable 10 (onAddRenderable 1 10 (create loadedResources)))
       = onRemoveRenderable 10 (onAddRenderable 1 10 (create loadedResources))
   \<and> renderables (onRemoveRenderable 10 (onAddRenderable 1 10 (create loadedResources))) = []
   \<and> renderables (onAddRenderable 1 10 (create loadedResources))
       = [\<lparr>object = Some 101, helper = None, eid = 10, resourceId = 1\<rparr>]"
proof -
  have pre: "renderableIndices (onAddRenderable 1 10 (create loadedResources)) 11 = None"
    by (simp add: renderer_defs)
  have rs: "renderables (onRemoveRenderable 10 (onAddRenderable 1 10 (create loadedResources))) = []"
    "renderables (onAddRenderable 1 10 (create loadedResources))
       = [\<lparr>object = Some 101, helper = None, eid = 10, resourceId = 1\<rparr>]"
    by (simp_all add: renderer_defs)
  from removeRenderable_idempotent [of 11 "onAddRenderable 1 10 (create loadedResources)"]
    removeRenderable_idempotent [of 10 "onAddRenderable 1 10 (create loadedResources)"] pre rs
  show ?thesis by simp
qed

subsection \<open>A load that was superseded\<close>

text \<open>
  Right after the entity changed to another resource, or was removed, the callback of the
  earlier load puts nothing on the queue.
\<close>

lemma requeue_after_change:
  assumes "rid' \<noteq> rid" "store s rid' = Some info" "info \<noteq> ResourceError"
  shows "renderableMessageQueue (completionState (requeueAddRenderable rid e (onAddRenderable rid' e s)))
         = renderableMessageQueue s"
proof -
  let ?s' = "onAddRenderable rid' e s"
  have q: "renderableMessageQueue ?s' = renderableMessageQueue s"
    by (simp add: onAddRenderable_other_fields)
  have "resourceId (renderables ?s' ! i) = rid'"
    if "renderableIndices ?s' e = Some i" "i < length (renderables ?s')" for i
  proof (cases info)
    case ResourceLoading
    with assms have l: "store s rid' = Some ResourceLoading" by simp
    show ?thesis
    proof (cases "renderableIndices s e")
      case None
      with that show ?thesis by (auto simp: onAddRenderable_loading [OF l])
    next
      case (Some j)
      with that have "i = j" by (simp add: onAddRenderable_loading [OF l])
      with that Some show ?thesis
        by (simp add: onAddRenderable_loading [OF l] splice_replace_at)
    qed
  next
    case (ResourceLoaded obj)
    with assms have l: "store s rid' = Some (ResourceLoaded obj)" by simp
    show ?thesis
    proof (cases "renderableIndices s e")
      case None
      with that show ?thesis by (auto simp: onAddRenderable_loaded [OF l])
    next
      case (Some j)
      with that have "i = j" by (simp add: onAddRenderable_loaded [OF l])
      with that Some show ?thesis
        by (simp add: onAddRenderable_loaded [OF l] splice_replace_at)
    qed
  next
    case ResourceError
    with assms show ?thesis by simp
  qed
  with assms(1) q show ?thesis
    by (auto simp: requeueAddRenderable_def split: option.splits)
qed

text \<open>
  With a consistent table the check of the callback is exact: it puts nothing on the queue
  when the entity has no entry or its entry carries another resource id.
\<close>

lemma requeue_superseded_discarded:
  assumes "indicesValid t"
    and "\<forall>i. renderableIndices t e = Some i \<longrightarrow> resourceId (renderables t ! i) \<noteq> rid"
  shows "requeueAddRenderable rid e t = Returned t"
  using assms by (auto simp: requeueAddRenderable_def indicesValid_def split: option.splits)

lemma requeue_after_remove:
  "requeueAddRenderable rid e (onRemoveRenderable e s) = Returned (onRemoveRenderable e s)"
  by (simp add: requeueAddRenderable_def onRemoveRenderable_indices)

text \<open>
  C2. A load that was superseded is attached all the same when the table is not
  consistent. Entities \<open>10\<close>, \<open>11\<close> and \<open>12\<close> wait for resource \<open>1\<close>; entity \<open>11\<close> changes to
  the loaded resource \<open>2\<close>; entity \<open>10\<close> is removed, which moves the entries of \<open>11\<close> and
  \<open>12\<close> down while the table keeps their indices. When the load of resource \<open>1\<close> settles,
  the callback of entity \<open>11\<close> finds the entry of entity \<open>12\<close> at its index, with resource
  \<open>1\<close>, and puts \<open>AddRenderable 1 11\<close> back on the queue; the next frame attaches the
  object \<open>101\<close> of resource \<open>1\<close> for entity \<open>11\<close> and adds it to the scene.
\<close>

theorem superseded_load_result_attached:
  "renderables (run (take 6 supersededTrace) (create loadingResources))
     = [\<lparr>object = Some 102, helper = None, eid = 11, resourceId = 2\<rparr>,
        \<lparr>object = None, helper = None, eid = 12, resourceId = 1\<rparr>]
   \<and> renderableIndices (run (take 6 supersededTrace) (create loadingResources)) 11 = Some 1
   \<and> renderableMessageQueue (run supersededTrace (create loadingResources)) = [AddRenderable 1 11]
   \<and> renderables (run (supersededTrace @ [Frame]) (create loadingResources))
     = [\<lparr>object = Some 102, helper = None, eid = 11, resourceId = 2\<rparr>,
        \<lparr>object = Some 101, helper = None, eid = 11, resourceId = 1\<rparr>]
   \<and> children (run (supersededTrace @ [Frame]) (create loadingResources))
       (scene (run (supersededTrace @ [Frame]) (create loadingResources)))
     = [102, 101]"
  by (simp add: renderer_defs run_defs supersededTrace_def)

subsection \<open>The message queue\<close>

text \<open>
  \<open>processRenderableMessages\<close> dispatches the messages in the order of the queue, each one
  once, and returns with an empty queue unless a handler throws; \<open>onUpdate\<close> swaps the read
  buffer and renders after that, once.
\<close>

lemma processRenderableMessages_in_order:
  "renderableMessageQueue s = ms \<Longrightarrow> processRenderableMessages s = drainInOrder ms s"
proof (induction ms arbitrary: s)
  case Nil
  then show ?case by (simp add: processRenderableMessages.simps)
next
  case (Cons message rest)
  show ?case
  proof (cases "dispatch message (s\<lparr>renderableMessageQueue := rest\<rparr>)")
    case (Returned s')
    from dispatch_fields(1) [of message "s\<lparr>renderableMessageQueue := rest\<rparr>"] Returned
    have "renderableMessageQueue s' = rest" by simp
    from Cons.IH [OF this] Cons.prems Returned show ?thesis
      by (simp add: processRenderableMessages.simps [of s])
  next
    case (Threw ex s')
    with Cons.prems show ?thesis
      by (simp add: processRenderableMessages.simps [of s])
  qed
qed

lemma drainInOrder_returned:
  "renderableMessageQueue s = ms \<Longrightarrow> drainInOrder ms s = Returned s' \<Longrightarrow>
   renderableMessageQueue s' = [] \<and> frameEffects s' = frameEffects s"
proof (induction ms arbitrary: s)
  case Nil
  then show ?case
    by simp
next
  case (Cons message rest)
  show ?case
  proof (cases "dispatch message (s\<lparr>renderableMessageQueue := rest\<rparr>)")
    case (Returned t)
    from dispatch_fields [of message "s\<lparr>renderableMessageQueue := rest\<rparr>"] Returned
    have t: "renderableMessageQueue t = rest" "frameEffects t = frameEffects s" by simp_all
    from Cons.prems Returned have "drainInOrder rest t = Returned s'" by simp
    from Cons.IH [OF t(1) this] t(2) show ?thesis by simp
  next
    case (Threw ex t)
    with Cons.prems show ?thesis by simp
  qed
qed

lemma onUpdate_returned:
  assumes "onUpdate s = Returned s'"
  shows "\<exists>t. drainInOrder (renderableMessageQueue s) s = Returned t
           \<and> s' = t\<lparr>frameEffects := frameEffects s
                         @ [SwapReadBuffer, Render (scene s) (children t (scene s)) (camera s)]\<rparr>
           \<and> renderableMessageQueue s' = []"
proof (cases "processRenderableMessages s")
  case (Returned t)
  then have d: "drainInOrder (renderableMessageQueue s) s = Returned t"
    by (simp add: processRenderableMessages_in_order)
  from drainInOrder_returned [OF refl d] assms Returned d show ?thesis
    by (auto simp: onUpdate_def)
next
  case (Threw ex t)
  with assms show ?thesis by (simp add: onUpdate_def)
qed

lemma onRenderableMessage_appends:
  "renderableMessageQueue (onRenderableMessage message s) = renderableMessageQueue s @ [message]"
  by (simp add: onRenderableMessage_def)

text \<open>
  C8. A frame does not always drain the queue. \<open>AddRenderable 1 10\<close> finds resource \<open>1\<close>
  still loading and stores an entry without object; \<open>SetActiveCamera 10\<close> then reads the
  object of that entry and throws. \<open>onUpdate\<close> ends there: \<open>RemoveRenderable 10\<close> is still on
  the queue, and the frame has neither swapped its read buffer nor rendered.
\<close>

theorem throwing_handler_aborts_drain:
  "renderableMessageQueue
     (run [Post (AddRenderable 1 10), Post (SetActiveCamera 10), Post (RemoveRenderable 10)]
        (create loadingResources))
     = [AddRenderable 1 10, SetActiveCamera 10, RemoveRenderable 10]
   \<and> onUpdate
     (run [Post (AddRenderable 1 10), Post (SetActiveCamera 10), Post (RemoveRenderable 10)]
        (create loadingResources))
     = Threw TypeError
         ((create loadingResources)
            \<lparr>renderableMessageQueue := [RemoveRenderable 10],
             renderables := [\<lparr>object = None, helper = None, eid = 10, resourceId = 1\<rparr>],
             renderableIndices := [10 \<mapsto> 0],
             promiseCallbacks := [(1, RequeueAddRenderable 1 10)],
             frameEffects := []\<rparr>)"
  by (simp add: renderer_defs run_defs)

section \<open>Properties of the reliable-ordered channel\<close>

lemma receiveReliable_stale:
  assumes "lastApplied r (entityId m) = Some lastSeq" "sequence m \<le> lastSeq"
  shows "receiveReliable r m = r"
  using assms by (simp add: receiveReliable_def)

lemma receiveReliable_lastApplied:
  "\<exists>lastSeq. lastApplied (receiveReliable r m) (entityId m) = Some lastSeq \<and> sequence m \<le> lastSeq"
  by (cases "lastApplied r (entityId m)") (auto simp: receiveReliable_def applyMessage_def)

lemma receive_older_after_newer:
  assumes "entityId m1 = entityId m2" "sequence m1 \<le> sequence m2"
  shows "receiveReliable (receiveReliable r m2) m1 = receiveReliable r m2"
proof -
  from receiveReliable_lastApplied [of r m2] obtain lastSeq
    where "lastApplied (receiveReliable r m2) (entityId m2) = Some lastSeq" "sequence m2 \<le> lastSeq"
    by blast
  with assms show ?thesis
    by (intro receiveReliable_stale [where lastSeq = lastSeq]) simp_all
qed

text \<open>
  C3. The receiver drops every message whose sequence number is not greater than the one
  applied last for its entity. So three messages of one entity with the sequence numbers
  1, 2 and 3, delivered as 2, 1, 3, leave the receiver as the delivery of 2 and 3 alone
  does; a receiver that has applied nothing yet ends as if messages 2 and 3 had been
  applied to it.
\<close>

theorem reliable_channel_drops_stale:
  "(lastApplied r (entityId m) = Some lastSeq \<and> sequence m \<le> lastSeq \<longrightarrow> receiveReliable r m = r)
   \<and> (entityId m1 = entityId m2 \<and> entityId m3 = entityId m2
        \<and> sequence m1 = 1 \<and> sequence m2 = 2 \<and> sequence m3 = 3 \<longrightarrow>
      deliver [m2, m1, m3] r = deliver [m2, m3] r
      \<and> deliver [m2, m1, m3] freshReceiver = applyMessage m3 (applyMessage m2 freshReceiver))"
proof -
  have fresh: "deliver [m2, m3] freshReceiver = applyMessage m3 (applyMessage m2 freshReceiver)"
    if "entityId m3 = entityId m2" "sequence m2 = 2" "sequence m3 = 3"
    using that
    by (simp add: deliver_def receiveReliable_def freshReceiver_def)
       (simp add: applyMessage_def)
  have "deliver [m2, m1, m3] r = deliver [m2, m3] r"
    if "entityId m1 = entityId m2" "sequence m1 = 1" "sequence m2 = 2"
      for r
  proof -
    from that have "receiveReliable (receiveReliable r m2) m1 = receiveReliable r m2"
      by (intro receive_older_after_newer) simp_all
    then show ?thesis by (simp add: deliver_def)
  qed
  with fresh show ?thesis
    using receiveReliable_stale by metis
qed

theorem reliable_channel_drops_stale_witness:
  "deliver [\<lparr>entityId = 7, sequence = 2, fieldValues = [(0, 20)]\<rparr>,
            \<lparr>entityId = 7, sequence = 1, fieldValues = [(1, 10)]\<rparr>,
            \<lparr>entityId = 7, sequence = 3, fieldValues = [(0, 30)]\<rparr>] freshReceiver
   = deliver [\<lparr>entityId = 7, sequence = 2, fieldValues = [(0, 20)]\<rparr>,
              \<lparr>entityId = 7, sequence = 3, fieldValues = [(0, 30)]\<rparr>] freshReceiver
   \<and> receiveReliable (deliver [\<lparr>entityId = 7, sequence = 2, fieldValues = [(0, 20)]\<rparr>] freshReceiver)
        \<lparr>entityId = 7, sequence = 1, fieldValues = [(1, 10)]\<rparr>
     = deliver [\<lparr>entityId = 7, sequence = 2, fieldValues = [(0, 20)]\<rparr>] freshReceiver
   \<and> entityFields (deliver [\<lparr>entityId = 7, sequence = 2, fieldValues = [(0, 20)]\<rparr>,
            \<lparr>entityId = 7, sequence = 1, fieldValues = [(1, 10)]\<rparr>,
            \<lparr>entityId = 7, sequence = 3, fieldValues = [(0, 30)]\<rparr>] freshReceiver) 7 1 = None"
proof -
  let ?m1 = "\<lparr>entityId = 7, sequence = 1, fieldValues = [(1, 10)]\<rparr>"
  let ?m2 = "\<lparr>entityId = 7, sequence = 2, fieldValues = [(0, 20)]\<rparr>"
  let ?m3 = "\<lparr>entityId = 7, sequence = 3, fieldValues = [(0, 30)]\<rparr>"
  have stale: "lastApplied (deliver [?m2] freshReceiver) (entityId ?m1) = Some 2 \<and> sequence ?m1 \<le> 2"
    by (simp add: deliver_def receiveReliable_def applyMessage_def freshReceiver_def)
  have ids: "entityId ?m1 = entityId ?m2 \<and> entityId ?m3 = entityId ?m2
             \<and> sequence ?m1 = 1 \<and> sequence ?m2 = 2 \<and> sequence ?m3 = 3"
    by simp
  have field: "entityFields (deliver [?m2, ?m3] freshReceiver) 7 1 = None"
    by (simp add: deliver_def receiveReliable_def applyMessage_def freshReceiver_def)
  from reliable_channel_drops_stale [of "deliver [?m2] freshReceiver" ?m1 2 ?m1 ?m2 ?m3] stale
  have dropped: "receiveReliable (deliver [?m2] freshReceiver) ?m1 = deliver [?m2] freshReceiver"
    by blast
  from reliable_channel_drops_stale [of freshReceiver ?m1 0 ?m1 ?m2 ?m3] ids
  have same: "deliver [?m2, ?m1, ?m3] freshReceiver = deliver [?m2, ?m3] freshReceiver"
    by blast
  from dropped same field show ?thesis by simp
qed

end
